theory Spec2Isabelle
  imports Main "HOL-Library.AList" "HOL-Library.Word"
begin

section \<open>JavaScript values\<close>

text \<open>
  The reducer of \<^verbatim>\<open>src/reducer.ts\<close> works on untyped JavaScript values
  (\<^verbatim>\<open>payload: any\<close>, \<^verbatim>\<open>Action<any>\<close>, \<^verbatim>\<open>Resource<any>\<close>).
  A value is one of the JSON shapes plus \<^verbatim>\<open>undefined\<close>. An object is the list of its
  own enumerable properties. Strings are ASCII.

  Numbers are the integers from \<open>-2\<^sup>5\<^sup>3\<close> to \<open>2\<^sup>5\<^sup>3 - 1\<close>: each of them is a
  JavaScript number without rounding, and JavaScript prints each in plain decimal
  digits. The type \<open>54 word\<close>, read through \<open>sint\<close>, has exactly this range, and is
  used for its range only: the reducer does no arithmetic. Fractions, larger numbers,
  infinities and \<^verbatim>\<open>NaN\<close> are not represented.

  Arrays and objects are values without identity, and the members that an object
  inherits from its prototype are not represented: see \<open>strictEq\<close> and
  \<open>objectPrototypeKeys\<close> below for what this leaves out, and the statements for how
  they stay within what is represented.
\<close>

datatype jsval =
    JUndefined
  | JNull
  | JBool bool
  | JNum "54 word"
  | JStr string
  | JArr "jsval list"
  | JObj "(string \<times> jsval) list"

type_synonym obj = "(string \<times> jsval) list"

datatype error =
    ConfigError string  \<comment> \<open>\<^verbatim>\<open>throw new Error(...)\<close> of the factory\<close>
  | TypeError           \<comment> \<open>a property access on \<^verbatim>\<open>undefined\<close> or \<^verbatim>\<open>null\<close>\<close>

text \<open>\<^verbatim>\<open>if (v)\<close>, \<^verbatim>\<open>!v\<close>: the falsy values are \<^verbatim>\<open>undefined\<close>, \<^verbatim>\<open>null\<close>,
  \<^verbatim>\<open>false\<close>, \<^verbatim>\<open>0\<close> and the empty string.\<close>

fun truthy :: "jsval \<Rightarrow> bool" where
  "truthy JUndefined = False"
| "truthy JNull = False"
| "truthy (JBool b) = b"
| "truthy (JNum n) = (n \<noteq> 0)"
| "truthy (JStr s) = (s \<noteq> [])"
| "truthy (JArr xs) = True"
| "truthy (JObj ps) = True"

text \<open>\<^verbatim>\<open>Array.isArray(payload) ? payload : [payload]\<close>\<close>

fun toArray :: "jsval \<Rightarrow> jsval list" where
  "toArray (JArr xs) = xs"
| "toArray v = [v]"

subsection \<open>Strings\<close>

text \<open>\<^verbatim>\<open>toUpperCase\<close> and \<^verbatim>\<open>toLowerCase\<close> on ASCII: the 26 letters change case,
  every other character stays.\<close>

definition upperChar :: "char \<Rightarrow> char" where
  "upperChar c =
     (case map_of (zip ''abcdefghijklmnopqrstuvwxyz'' ''ABCDEFGHIJKLMNOPQRSTUVWXYZ'') c of
        None \<Rightarrow> c
      | Some u \<Rightarrow> u)"

definition lowerChar :: "char \<Rightarrow> char" where
  "lowerChar c =
     (case map_of (zip ''ABCDEFGHIJKLMNOPQRSTUVWXYZ'' ''abcdefghijklmnopqrstuvwxyz'') c of
        None \<Rightarrow> c
      | Some l \<Rightarrow> l)"

definition toUpperCase :: "string \<Rightarrow> string" where
  "toUpperCase s = map upperChar s"

definition toLowerCase :: "string \<Rightarrow> string" where
  "toLowerCase s = map lowerChar s"

text \<open>\<^verbatim>\<open>s.split('/')\<close>: the empty string splits into one empty segment, and a trailing
  separator gives a trailing empty segment.\<close>

fun split :: "char \<Rightarrow> string \<Rightarrow> string list" where
  "split sep [] = [[]]"
| "split sep (c # cs) =
     (if c = sep then [] # split sep cs
      else (case split sep cs of
              [] \<Rightarrow> [[c]]
            | seg # segs \<Rightarrow> (c # seg) # segs))"

text \<open>Decimal digits of a number, as \<^verbatim>\<open>String(n)\<close> prints an integer below
  \<open>10\<^sup>2\<^sup>1\<close> in absolute value, which every number of the model is.\<close>

definition digitChar :: "nat \<Rightarrow> char" where
  "digitChar d = ''0123456789'' ! d"

function showNat :: "nat \<Rightarrow> string" where
  "showNat n = (if n < 10 then [digitChar n] else showNat (n div 10) @ [digitChar (n mod 10)])"
  by pat_completeness auto
termination
  by (relation "measure (\<lambda>n. n)") auto

declare showNat.simps [simp del]

definition showInt :: "int \<Rightarrow> string" where
  "showInt i = (if i < 0 then CHR ''-'' # showNat (nat (- i)) else showNat (nat i))"

fun joinWith :: "string \<Rightarrow> string list \<Rightarrow> string" where
  "joinWith sep [] = []"
| "joinWith sep [s] = s"
| "joinWith sep (s # t # ts) = s @ sep @ joinWith sep (t # ts)"

text \<open>
  \<^verbatim>\<open>o[v]\<close> and \<^verbatim>\<open>delete o[v]\<close> turn \<^verbatim>\<open>v\<close> into a property key, a string:
  the number 1 and the string "1" name the same property. An array prints its elements
  separated by commas, with \<^verbatim>\<open>null\<close> and \<^verbatim>\<open>undefined\<close> elements printed as
  nothing; an object prints as \<^verbatim>\<open>[object Object]\<close>. This is the key of a value
  that can be converted; \<open>unconvertible\<close> below says which values cannot.
\<close>

fun toKey :: "jsval \<Rightarrow> string" where
  "toKey JUndefined = ''undefined''"
| "toKey JNull = ''null''"
| "toKey (JBool b) = (if b then ''true'' else ''false'')"
| "toKey (JNum n) = showInt (sint n)"
| "toKey (JStr s) = s"
| "toKey (JArr xs) =
     joinWith '','' (map (\<lambda>x. if x = JUndefined \<or> x = JNull then [] else toKey x) xs)"
| "toKey (JObj ps) = ''[object Object]''"

text \<open>
  The conversion of an object to a string calls its \<^verbatim>\<open>toString\<close> method. An object
  of a payload that has a property named \<^verbatim>\<open>toString\<close> of its own hides the inherited
  method behind a value that is no function; the conversion then tries
  \<^verbatim>\<open>valueOf\<close>, which gives no primitive value either, and throws a TypeError. An
  array converts its elements, so it cannot be converted when one of them cannot.
\<close>

fun unconvertible :: "jsval \<Rightarrow> bool" where
  "unconvertible (JObj ps) = (''toString'' \<in> fst ` set ps)"
| "unconvertible (JArr xs) = list_ex unconvertible xs"
| "unconvertible v = False"

subsection \<open>Property access, equality, spread\<close>

text \<open>\<^verbatim>\<open>xs[k]\<close> on an array or a string: the element at a canonical index.\<close>

definition atIndex :: "'a list \<Rightarrow> string \<Rightarrow> 'a option" where
  "atIndex xs k = map_option (\<lambda>i. xs ! i) (find (\<lambda>i. showNat i = k) [0..<length xs])"

text \<open>\<^verbatim>\<open>v[k]\<close>: reading a property of \<^verbatim>\<open>undefined\<close> or \<^verbatim>\<open>null\<close> throws a
  TypeError; a missing property reads as \<^verbatim>\<open>undefined\<close>. Own properties only
  (and \<^verbatim>\<open>length\<close> and the indices of arrays and strings): the reducer reads
  \<^verbatim>\<open>form\<close> and the identifier field, \<^verbatim>\<open>id\<close> by default, neither of which is
  the name of an inherited member.\<close>

fun getProp :: "jsval \<Rightarrow> string \<Rightarrow> error + jsval" where
  "getProp JUndefined k = Inl TypeError"
| "getProp JNull k = Inl TypeError"
| "getProp (JBool b) k = Inr JUndefined"
| "getProp (JNum n) k = Inr JUndefined"
| "getProp (JStr s) k =
     (if k = ''length'' then Inr (JNum (of_nat (length s)))
      else Inr (case atIndex s k of None \<Rightarrow> JUndefined | Some c \<Rightarrow> JStr [c]))"
| "getProp (JArr xs) k =
     (if k = ''length'' then Inr (JNum (of_nat (length xs)))
      else Inr (case atIndex xs k of None \<Rightarrow> JUndefined | Some x \<Rightarrow> x))"
| "getProp (JObj ps) k = Inr (case map_of ps k of None \<Rightarrow> JUndefined | Some x \<Rightarrow> x)"

text \<open>
  \<^verbatim>\<open>a === b\<close>, the comparison of \<^verbatim>\<open>Array.prototype.indexOf\<close>. Primitive values
  are compared by value, and a primitive value is equal to no array or object. Two
  arrays or objects are equal when they are the same reference, which values without
  identity cannot tell: they are taken to be different. The statements below compare
  with primitive identifiers only.
\<close>

fun isPrimitive :: "jsval \<Rightarrow> bool" where
  "isPrimitive (JArr xs) = False"
| "isPrimitive (JObj ps) = False"
| "isPrimitive v = True"

definition strictEq :: "jsval \<Rightarrow> jsval \<Rightarrow> bool" where
  "strictEq a b = (isPrimitive a \<and> a = b)"

text \<open>\<^verbatim>\<open>xs.indexOf(v)\<close>: the first position holding \<^verbatim>\<open>v\<close>, or -1.\<close>

fun indexOf :: "jsval list \<Rightarrow> jsval \<Rightarrow> int" where
  "indexOf [] v = - 1"
| "indexOf (x # xs) v =
     (if strictEq x v then 0
      else (let i = indexOf xs v in if i = - 1 then - 1 else i + 1))"

text \<open>\<^verbatim>\<open>xs.splice(idx, 1)\<close> for an index in range.\<close>

definition splice1 :: "jsval list \<Rightarrow> nat \<Rightarrow> jsval list" where
  "splice1 xs idx = take idx xs @ drop (Suc idx) xs"

text \<open>The own enumerable properties that an object spread \<^verbatim>\<open>{...v}\<close> copies.\<close>

fun ownProps :: "jsval \<Rightarrow> obj" where
  "ownProps (JObj ps) = ps"
| "ownProps (JArr xs) = map (\<lambda>i. (showNat i, xs ! i)) [0..<length xs]"
| "ownProps (JStr s) = map (\<lambda>i. (showNat i, JStr [s ! i])) [0..<length s]"
| "ownProps v = []"

text \<open>\<^verbatim>\<open>{...a, ...b}\<close> as an object value: the properties of \<^verbatim>\<open>b\<close> are assigned
  one by one, a later assignment to the same key replacing the value in place. (JavaScript
  lists integer-like keys first; no statement below depends on the order of properties.)\<close>

definition spreadObj :: "obj \<Rightarrow> obj \<Rightarrow> obj" where
  "spreadObj a b = fold (\<lambda>(k, v) acc. AList.update k v acc) b a"

text \<open>The same, into a dictionary of the state.\<close>

definition assignAll :: "(string \<rightharpoonup> jsval) \<Rightarrow> obj \<Rightarrow> (string \<rightharpoonup> jsval)" where
  "assignAll m ps = fold (\<lambda>(k, v) acc. acc(k \<mapsto> v)) ps m"

subsection \<open>Inherited members\<close>

text \<open>
  The dictionaries of the slice (\<^verbatim>\<open>entities\<close>, \<^verbatim>\<open>meta\<close>, \<^verbatim>\<open>changeset\<close>,
  \<^verbatim>\<open>status\<close>) are plain objects, which inherit the members of
  \<^verbatim>\<open>Object.prototype\<close>. Under one of these names, and no own property, a read finds
  the inherited member, and an assignment to \<^verbatim>\<open>__proto__\<close> sets the prototype and
  creates no property. The maps below hold own properties only, so they say what the
  code does for every other key; the statements about \<^verbatim>\<open>entities\<close> that read or
  assign are about identifiers whose key is none of these names.
\<close>

definition objectPrototypeKeys :: "string list" where
  "objectPrototypeKeys =
     [''constructor'', ''__defineGetter__'', ''__defineSetter__'', ''hasOwnProperty'',
      ''__lookupGetter__'', ''__lookupSetter__'', ''isPrototypeOf'', ''propertyIsEnumerable'',
      ''toString'', ''valueOf'', ''__proto__'', ''toLocaleString'']"

section \<open>The resource slice, actions and options\<close>

text \<open>
  The reducer imports its types from \<^verbatim>\<open>./types\<close>; the shapes below are the ones
  that \<^verbatim>\<open>reducer.ts\<close> builds and reads. The dictionaries of the slice are maps from
  property keys.
  A status and a changeset buffer are objects. Absent fields of an action read as
  \<^verbatim>\<open>undefined\<close>.
\<close>

record resource =
  results :: "jsval list"
  entities :: "string \<rightharpoonup> jsval"
  meta :: "string \<rightharpoonup> jsval"
  changeset :: "string \<rightharpoonup> obj"
  status :: "string \<rightharpoonup> obj"

record action =
  a_type :: string
  a_payload :: jsval
  a_meta :: jsval

text \<open>
  The options after the defaults have been merged with the caller's
  (\<^verbatim>\<open>options = { idAttribute: 'id', ..., ...options }\<close>): a caller who overrides
  one option is \<open>defaultOptions\<close> with that field updated. The option functions are
  pure and total, and \<^verbatim>\<open>changesetReducer\<close> returns an object.
\<close>

record options =
  idAttribute :: string
  onUpdate :: "jsval \<Rightarrow> jsval \<Rightarrow> jsval"
  changesetReducer :: "jsval \<Rightarrow> jsval \<Rightarrow> obj"
  entityReducer :: "string \<Rightarrow> jsval \<Rightarrow> jsval \<Rightarrow> jsval"
  errorReducer :: "string \<Rightarrow> jsval \<Rightarrow> jsval \<Rightarrow> jsval"

definition defaultOptions :: options where
  "defaultOptions =
     \<lparr> idAttribute = ''id'',
       onUpdate = (\<lambda>prev next. next),
       changesetReducer = (\<lambda>changeset changes. spreadObj (ownProps changeset) (ownProps changes)),
       entityReducer = (\<lambda>action_type payload meta. payload),
       errorReducer = (\<lambda>action_type payload meta. payload) \<rparr>"

text \<open>The result of one call of the reducer: the exception thrown, or the next state
  together with the lines written by \<^verbatim>\<open>console.warn\<close>.\<close>

type_synonym outcome = "error + resource \<times> string list"

definition defaultStatus :: obj where
  "defaultStatus =
     [(''pending'', JNull), (''id'', JNull), (''success'', JNull), (''payload'', JNull),
      (''busy'', JBool False)]"

definition createStatus :: "string \<rightharpoonup> obj" where
  "createStatus =
     fold (\<lambda>key acc. acc(key \<mapsto> defaultStatus)) [''fetch'', ''create'', ''update'', ''destroy'']
       Map.empty"

definition initialResourceState :: resource where
  "initialResourceState =
     \<lparr> results = [], entities = Map.empty, meta = Map.empty, changeset = Map.empty,
       status = createStatus \<rparr>"

section \<open>The handlers\<close>

text \<open>\<^verbatim>\<open>crudType.toLowerCase()\<close> on a segment that the split did not produce
  (\<^verbatim>\<open>undefined\<close>, here \<open>None\<close>) throws.\<close>

definition handleClear :: "string option \<Rightarrow> action \<Rightarrow> resource \<Rightarrow> options \<Rightarrow> outcome" where
  "handleClear crudType action state options =
     (case crudType of
        None \<Rightarrow> Inl TypeError
      | Some c \<Rightarrow> Inr (state\<lparr>status := (status state)(toLowerCase c \<mapsto> defaultStatus)\<rparr>, []))"

definition handleStart :: "string option \<Rightarrow> action \<Rightarrow> resource \<Rightarrow> options \<Rightarrow> outcome" where
  "handleStart crudType action state options =
     (case crudType of
        None \<Rightarrow> Inl TypeError
      | Some c \<Rightarrow>
          Inr (state\<lparr>status := (status state)(toLowerCase c \<mapsto>
                 [(''pending'', JBool True), (''busy'', JBool True), (''success'', JNull),
                  (''payload'', a_payload action)])\<rparr>, []))"

definition handleFailure :: "string option \<Rightarrow> action \<Rightarrow> resource \<Rightarrow> options \<Rightarrow> outcome" where
  "handleFailure crudType action state options =
     (case crudType of
        None \<Rightarrow> Inl TypeError
      | Some c \<Rightarrow>
          Inr (state\<lparr>status := (status state)(toLowerCase c \<mapsto>
                 [(''pending'', JBool True), (''busy'', JBool False), (''success'', JBool False),
                  (''payload'',
                     if truthy (a_payload action)
                     then errorReducer options c (a_payload action) (a_meta action)
                     else JNull)])\<rparr>, []))"

text \<open>A \<^verbatim>\<open>forEach\<close> whose body may throw: the first exception ends the loop.\<close>

fun forEach :: "('a \<Rightarrow> 's \<Rightarrow> error + 's) \<Rightarrow> 'a list \<Rightarrow> 's \<Rightarrow> error + 's" where
  "forEach body [] s = Inr s"
| "forEach body (x # xs) s =
     (case body x s of Inl e \<Rightarrow> Inl e | Inr s' \<Rightarrow> forEach body xs s')"

text \<open>The two iterations in \<^verbatim>\<open>updateInResource\<close> and \<^verbatim>\<open>destroyInResource\<close> work on the
  copies \<^verbatim>\<open>results\<close> and \<^verbatim>\<open>entities\<close> of the new state, and the first also
  writes warnings. \<^verbatim>\<open>entities[id]\<close> and \<^verbatim>\<open>delete entities[id]\<close> convert the
  identifier to a property key, which throws for an identifier that cannot be
  converted; an exception leaves no state, so that its place in the body does not
  matter.\<close>

type_synonym store = "jsval list \<times> (string \<rightharpoonup> jsval) \<times> string list"

definition updateBody :: "options \<Rightarrow> jsval \<Rightarrow> store \<Rightarrow> error + store" where
  "updateBody options obj st =
     (case st of (rs, ents, warnings) \<Rightarrow>
        (case getProp obj (idAttribute options) of
           Inl e \<Rightarrow> Inl e
         | Inr ident \<Rightarrow>
             if truthy ident then
               (if unconvertible ident then Inl TypeError
                else
                  Inr (if indexOf rs ident = - 1 then rs @ [ident] else rs,
                       ents(toKey ident \<mapsto>
                         onUpdate options
                           (case ents (toKey ident) of None \<Rightarrow> JUndefined | Some e \<Rightarrow> e) obj),
                       warnings))
             else
               Inr (rs, ents,
                    warnings @
                      [''Missing '' @ [CHR 0x27] @ idAttribute options @ [CHR 0x27] @
                       '' unable to add data to store''])))"

definition updateInResource :: "jsval \<Rightarrow> action \<Rightarrow> resource \<Rightarrow> options \<Rightarrow> outcome" where
  "updateInResource payload action state options =
     (case forEach (updateBody options) (toArray payload) (results state, entities state, []) of
        Inl e \<Rightarrow> Inl e
      | Inr (results', entities', warnings) \<Rightarrow>
          Inr (state\<lparr>results := results', entities := entities'\<rparr>, warnings))"

text \<open>\<^verbatim>\<open>typeof obj === 'number' || typeof obj === 'string' ? obj : obj[options.idAttribute]\<close>\<close>

definition destroyId :: "options \<Rightarrow> jsval \<Rightarrow> error + jsval" where
  "destroyId options obj =
     (case obj of
        JNum n \<Rightarrow> Inr obj
      | JStr s \<Rightarrow> Inr obj
      | _ \<Rightarrow> getProp obj (idAttribute options))"

definition destroyBody :: "options \<Rightarrow> jsval \<Rightarrow> store \<Rightarrow> error + store" where
  "destroyBody options obj st =
     (case st of (rs, ents, warnings) \<Rightarrow>
        (case destroyId options obj of
           Inl e \<Rightarrow> Inl e
         | Inr ident \<Rightarrow>
             (let idx = indexOf rs ident in
              if unconvertible ident then Inl TypeError
              else
                Inr (if idx > - 1 then splice1 rs (nat idx) else rs,
                     ents(toKey ident := None),
                     warnings))))"

definition destroyInResource :: "jsval \<Rightarrow> action \<Rightarrow> resource \<Rightarrow> options \<Rightarrow> outcome" where
  "destroyInResource payload action state options =
     (case forEach (destroyBody options) (toArray payload) (results state, entities state, []) of
        Inl e \<Rightarrow> Inl e
      | Inr (results', entities', warnings) \<Rightarrow>
          Inr (state\<lparr>results := results', entities := entities'\<rparr>, warnings))"

definition handleSuccess :: "string option \<Rightarrow> action \<Rightarrow> resource \<Rightarrow> options \<Rightarrow> outcome" where
  "handleSuccess crudType action state options =
     (if \<not> truthy (a_payload action) then Inr (state, [])
      else
        (case crudType of
           None \<Rightarrow> Inl TypeError
         | Some c \<Rightarrow>
             (let newState =
                    \<lparr> results = results state,
                      entities = entities state,
                      meta =
                        (if a_meta action = JNull \<or> a_meta action = JBool False then Map.empty
                         else assignAll (meta state) (ownProps (a_meta action))),
                      changeset = changeset state,
                      status = (status state)(toLowerCase c \<mapsto>
                        [(''pending'', JBool False), (''busy'', JBool False),
                         (''success'', JBool True), (''payload'', a_payload action)]) \<rparr>;
                  data = entityReducer options c (a_payload action) (a_meta action)
              in if c = ''DESTROY'' then destroyInResource data action newState options
                 else updateInResource data action newState options)))"

text \<open>\<^verbatim>\<open>handleResource\<close> copies the state and its status before it dispatches; the
  copy is the same value.\<close>

definition handleResource ::
  "string option \<Rightarrow> string option \<Rightarrow> action \<Rightarrow> resource \<Rightarrow> options \<Rightarrow> outcome" where
  "handleResource domain method action state options =
     (let newState = state\<lparr>status := status state\<rparr> in
      if method = Some ''START'' then handleStart domain action newState options
      else if method = Some ''SUCCESS'' then handleSuccess domain action newState options
      else if method = Some ''FAILURE'' then handleFailure domain action newState options
      else if method = Some ''RESET'' then handleClear domain action newState options
      else Inr (state, []))"

text \<open>
  \<^verbatim>\<open>delete newState.changeset[form][field]\<close>: the buffer is read first, and deleting
  a property of \<^verbatim>\<open>undefined\<close> throws a TypeError, as does a form or a field that
  cannot be converted to a key. (The buffer is shared with the previous state, which
  the deletion therefore changes too; the model returns the new state only. A form
  named like an inherited member has no buffer here, where the code finds the
  inherited member.)
\<close>

definition removeBody :: "jsval \<Rightarrow> jsval \<Rightarrow> (string \<rightharpoonup> obj) \<Rightarrow> error + (string \<rightharpoonup> obj)" where
  "removeBody form field cs =
     (if unconvertible form then Inl TypeError
      else
        (case cs (toKey form) of
           None \<Rightarrow> Inl TypeError
         | Some buffer \<Rightarrow>
             if unconvertible field then Inl TypeError
             else Inr (cs(toKey form \<mapsto> AList.delete (toKey field) buffer))))"

text \<open>\<^verbatim>\<open>const { payload, meta = {} } = action; const { form = 'default' } = meta\<close>:
  the second destructuring throws for \<^verbatim>\<open>meta: null\<close>. The form is converted to a
  key where a branch uses it.\<close>

definition handleChangeset ::
  "string option \<Rightarrow> string option \<Rightarrow> action \<Rightarrow> resource \<Rightarrow> options \<Rightarrow> outcome" where
  "handleChangeset domain method action state options =
     (let payload = a_payload action;
          meta = (if a_meta action = JUndefined then JObj [] else a_meta action)
      in case getProp meta ''form'' of
           Inl e \<Rightarrow> Inl e
         | Inr f \<Rightarrow>
             (let form = (if f = JUndefined then JStr ''default'' else f) in
              if method = Some ''MERGE'' then
                (if unconvertible form then Inl TypeError
                 else
                   Inr (state\<lparr>changeset := (changeset state)(toKey form \<mapsto>
                          changesetReducer options
                            (case changeset state (toKey form) of
                               None \<Rightarrow> JUndefined
                             | Some b \<Rightarrow> JObj b)
                            payload)\<rparr>, []))
              else if method = Some ''REMOVE'' then
                (case forEach (removeBody form) (toArray payload) (changeset state) of
                   Inl e \<Rightarrow> Inl e
                 | Inr cs \<Rightarrow> Inr (state\<lparr>changeset := cs\<rparr>, []))
              else if method = Some ''RESET'' then
                (if unconvertible form then Inl TypeError
                 else Inr (state\<lparr>changeset := (changeset state)(toKey form \<mapsto> [])\<rparr>, []))
              else Inr (state, [])))"

section \<open>The reducer\<close>

text \<open>The destructuring \<^verbatim>\<open>[actionName, actionDomain, actionMethod] = ...\<close>: a segment
  that is not there is \<^verbatim>\<open>undefined\<close>.\<close>

definition segment :: "string list \<Rightarrow> nat \<Rightarrow> string option" where
  "segment segs i = (if i < length segs then Some (segs ! i) else None)"

text \<open>The \<^verbatim>\<open>switch (actionDomain)\<close> inside \<^verbatim>\<open>if (name == actionName)\<close>.\<close>

definition switchDomain ::
  "string option \<Rightarrow> string option \<Rightarrow> action \<Rightarrow> resource \<Rightarrow> options \<Rightarrow> outcome" where
  "switchDomain actionDomain actionMethod action state options =
     (if actionDomain = Some ''RESOURCE'' then Inr (initialResourceState, [])
      else if actionDomain = Some ''META'' then Inr (state\<lparr>meta := Map.empty\<rparr>, [])
      else if actionDomain = Some ''CHANGESET'' then
        handleChangeset actionDomain actionMethod action state options
      else handleResource actionDomain actionMethod action state options)"

text \<open>The function that \<^verbatim>\<open>resourceReducer\<close> returns, \<open>name\<close> being the uppercased
  resource name; a state that is not given is the initial state.\<close>

definition reducer :: "string \<Rightarrow> options \<Rightarrow> resource option \<Rightarrow> action \<Rightarrow> outcome" where
  "reducer name options stateArg action =
     (let state = (case stateArg of None \<Rightarrow> initialResourceState | Some s \<Rightarrow> s);
          segs = split CHR ''/'' (a_type action);
          actionName = segment segs 0;
          actionDomain = segment segs 1;
          actionMethod = segment segs 2
      in if Some name = actionName
         then switchDomain actionDomain actionMethod action state options
         else Inr (state, []))"

definition resourceReducer ::
  "string \<Rightarrow> options \<Rightarrow> error + (resource option \<Rightarrow> action \<Rightarrow> outcome)" where
  "resourceReducer resourceName options =
     (if resourceName = [] then Inl (ConfigError ''[resourceReducer]: Expected resource name'')
      else Inr (reducer (toUpperCase resourceName) options))"

text \<open>Building the reducer for a resource and applying it once to a state.\<close>

definition reduce :: "string \<Rightarrow> options \<Rightarrow> resource \<Rightarrow> action \<Rightarrow> outcome" where
  "reduce resourceName options state action =
     (case resourceReducer resourceName options of
        Inl e \<Rightarrow> Inl e
      | Inr r \<Rightarrow> r (Some state) action)"

text \<open>A sequence of actions, applied from left to right; an exception ends it.\<close>

fun applyAll :: "string \<Rightarrow> options \<Rightarrow> resource \<Rightarrow> action list \<Rightarrow> error + resource" where
  "applyAll resourceName options state [] = Inr state"
| "applyAll resourceName options state (a # as) =
     (case reduce resourceName options state a of
        Inl e \<Rightarrow> Inl e
      | Inr (state', warnings) \<Rightarrow> applyAll resourceName options state' as)"

section \<open>Notions used by the statements\<close>

text \<open>
  The elements that the entity merger works on: for a SUCCESS action of an operation
  domain \<open>d\<close> addressed to the reducer named \<open>name\<close> and carrying a truthy payload,
  the domain and the entity reducer's result coerced to an array; nothing for any other
  action.
\<close>

definition successElements :: "string \<Rightarrow> options \<Rightarrow> action \<Rightarrow> (string \<times> jsval list) option" where
  "successElements name options action =
     (let segs = split CHR ''/'' (a_type action) in
      if segment segs 0 = Some name \<and> segment segs 2 = Some ''SUCCESS'' \<and>
         truthy (a_payload action)
      then (case segment segs 1 of
              None \<Rightarrow> None
            | Some d \<Rightarrow>
                if d = ''RESOURCE'' \<or> d = ''META'' \<or> d = ''CHANGESET'' then None
                else Some (d, toArray (entityReducer options d (a_payload action) (a_meta action))))
      else None)"

text \<open>
  The identifiers of an action lie within \<open>K\<close>: every identifier that the destroy loop
  removes, and every truthy identifier that the update loop reads, is a member of \<open>K\<close>.
\<close>

definition idsWithin :: "jsval set \<Rightarrow> string \<Rightarrow> options \<Rightarrow> action \<Rightarrow> bool" where
  "idsWithin K name options action =
     (case successElements name options action of
        None \<Rightarrow> True
      | Some (d, elems) \<Rightarrow>
          list_all
            (\<lambda>obj. if d = ''DESTROY''
                   then (case destroyId options obj of Inl e \<Rightarrow> True | Inr i \<Rightarrow> i \<in> K)
                   else (case getProp obj (idAttribute options) of
                           Inl e \<Rightarrow> True
                         | Inr i \<Rightarrow> \<not> truthy i \<or> i \<in> K))
            elems)"

text \<open>
  The words of the specification for one payload element of an update (4.3, step 3):
  an element whose identifier is falsy is skipped; otherwise the identifier is appended
  to \<^verbatim>\<open>results\<close> unless it occurs there already, and \<^verbatim>\<open>entities[id]\<close> becomes
  \<^verbatim>\<open>onUpdate(entities[id], element)\<close>.
\<close>

definition spec_mergeElement ::
  "options \<Rightarrow> jsval \<Rightarrow> jsval list \<times> (string \<rightharpoonup> jsval) \<Rightarrow> jsval list \<times> (string \<rightharpoonup> jsval)" where
  "spec_mergeElement options element st =
     (case st of (rs, ents) \<Rightarrow>
        (case getProp element (idAttribute options) of
           Inl e \<Rightarrow> (rs, ents)
         | Inr ident \<Rightarrow>
             if \<not> truthy ident then (rs, ents)
             else (if list_ex (\<lambda>r. strictEq r ident) rs then rs else rs @ [ident],
                   ents(toKey ident \<mapsto>
                     onUpdate options
                       (case ents (toKey ident) of None \<Rightarrow> JUndefined | Some prev \<Rightarrow> prev)
                       element))))"

text \<open>\<^verbatim>\<open>typeof v === 'number' || typeof v === 'string'\<close>: the values that
  \<^verbatim>\<open>destroyInResource\<close> takes for identifiers as they are.\<close>

fun numberOrString :: "jsval \<Rightarrow> bool" where
  "numberOrString (JNum n) = True"
| "numberOrString (JStr s) = True"
| "numberOrString v = False"

text \<open>A plain identifier: a primitive value whose property key is not the name of a
  member of \<^verbatim>\<open>Object.prototype\<close>.\<close>

definition plainId :: "jsval \<Rightarrow> bool" where
  "plainId v \<longleftrightarrow> isPrimitive v \<and> toKey v \<notin> set objectPrototypeKeys"

text \<open>
  \<^verbatim>\<open>results\<close> and \<^verbatim>\<open>entities\<close> correspond within \<open>K\<close>: the identifiers of
  \<^verbatim>\<open>results\<close> are truthy members of \<open>K\<close>, none occurs twice, and their property
  keys are the keys of \<^verbatim>\<open>entities\<close>.
\<close>

definition corresponds :: "jsval set \<Rightarrow> jsval list \<Rightarrow> (string \<rightharpoonup> jsval) \<Rightarrow> bool" where
  "corresponds K rs ents \<longleftrightarrow>
     set rs \<subseteq> K \<and> list_all truthy rs \<and> distinct rs \<and> toKey ` set rs = dom ents"

text \<open>\<^verbatim>\<open>results\<close> hold no primitive value twice.\<close>

definition holdsOnce :: "jsval list \<Rightarrow> bool" where
  "holdsOnce rs \<longleftrightarrow> (\<forall>v. isPrimitive v \<longrightarrow> count_list rs v \<le> 1)"

section \<open>Routing\<close>

text \<open>The equations that evaluate the reducer on a given state and action.\<close>

lemmas run_defs =
  reduce_def resourceReducer_def reducer_def Let_def segment_def switchDomain_def
  handleResource_def handleSuccess_def handleStart_def handleFailure_def handleClear_def
  handleChangeset_def removeBody_def updateInResource_def destroyInResource_def
  updateBody_def destroyBody_def destroyId_def toUpperCase_def upperChar_def
  toLowerCase_def lowerChar_def initialResourceState_def defaultOptions_def strictEq_def
  splice1_def assignAll_def showInt_def showNat.simps digitChar_def

lemma split_not_Nil: "split sep s \<noteq> []"
  by (induction s) (auto split: list.splits)

lemma segment_0: "segment (split sep s) 0 = Some (hd (split sep s))"
  using split_not_Nil [of sep s] by (cases "split sep s") (simp_all add: segment_def)

lemma segment_Cons3:
  "segment (n # d # m # rest) 0 = Some n"
  "segment (n # d # m # rest) (Suc 0) = Some d"
  "segment (n # d # m # rest) 2 = Some m"
  by (simp_all add: segment_def)

lemma reduce_reducer:
  "resourceName \<noteq> [] \<Longrightarrow>
   reduce resourceName options state action =
     reducer (toUpperCase resourceName) options (Some state) action"
  by (simp add: reduce_def resourceReducer_def)

text \<open>An action \<open>NAME/d/m/...\<close> for an operation domain \<open>d\<close> reaches
  \<^verbatim>\<open>handleResource\<close>.\<close>

lemma reduce_operation:
  assumes "resourceName \<noteq> ([] :: string)"
    and "split CHR ''/'' (a_type action) = toUpperCase resourceName # d # m # rest"
    and "d \<noteq> ''RESOURCE''" and "d \<noteq> ''META''" and "d \<noteq> ''CHANGESET''"
  shows "reduce resourceName options state action =
           handleResource (Some d) (Some m) action state options"
  using assms by (simp add: reduce_reducer reducer_def Let_def segment_Cons3 switchDomain_def)

text \<open>
  C9. An action whose first segment differs from the uppercased resource name leaves
  the state as it is, whatever its other segments, payload and meta are.
\<close>

theorem C9_identity_on_mismatch:
  assumes "resourceName \<noteq> ([] :: string)"
    and "hd (split CHR ''/'' (a_type action)) \<noteq> toUpperCase resourceName"
  shows "reduce resourceName options state action = Inr (state, [])"
  using assms by (simp add: reduce_reducer reducer_def Let_def segment_0)

theorem C9_identity_on_mismatch_witness:
  "''users'' \<noteq> [] \<and>
   hd (split CHR ''/'' (a_type \<lparr>a_type = ''POSTS/RESOURCE/RESET'', a_payload = JNum 7,
         a_meta = JNull\<rparr>)) \<noteq> toUpperCase ''users'' \<and>
   reduce ''users'' defaultOptions (initialResourceState\<lparr>results := [JNum 1]\<rparr>)
     \<lparr>a_type = ''POSTS/RESOURCE/RESET'', a_payload = JNum 7, a_meta = JNull\<rparr>
     = Inr (initialResourceState\<lparr>results := [JNum 1]\<rparr>, [])"
proof -
  have h: "hd (split CHR ''/'' (a_type \<lparr>a_type = ''POSTS/RESOURCE/RESET'', a_payload = JNum 7,
         a_meta = JNull\<rparr>)) \<noteq> toUpperCase ''users''"
    by (simp add: toUpperCase_def upperChar_def)
  have n: "''users'' \<noteq> []" by simp
  show ?thesis using h C9_identity_on_mismatch [OF n h] by simp
qed

text \<open>
  C1 (as amended). The configured name is uppercased once, when the reducer is built; the
  first segment of the action type is compared with it as it is written. An action whose
  first segment is exactly the uppercased name enters the domain switch, whatever the
  letter case of the configured name was.
\<close>

theorem C1_uppercased_name_matches:
  assumes "resourceName \<noteq> ([] :: string)"
    and "hd (split CHR ''/'' (a_type action)) = toUpperCase resourceName"
  shows "reduce resourceName options state action =
           switchDomain (segment (split CHR ''/'' (a_type action)) 1)
             (segment (split CHR ''/'' (a_type action)) 2) action state options"
  using assms by (simp add: reduce_reducer reducer_def Let_def segment_0)

theorem C1_uppercased_name_matches_witness:
  "''users'' \<noteq> ([] :: string) \<and>
   hd (split CHR ''/'' (a_type \<lparr>a_type = ''USERS/RESOURCE/RESET'', a_payload = JUndefined,
         a_meta = JUndefined\<rparr>)) = toUpperCase ''users'' \<and>
   reduce ''users'' defaultOptions (initialResourceState\<lparr>results := [JNum 1]\<rparr>)
     \<lparr>a_type = ''USERS/RESOURCE/RESET'', a_payload = JUndefined, a_meta = JUndefined\<rparr>
     = Inr (initialResourceState, [])"
proof -
  have h: "hd (split CHR ''/'' (a_type \<lparr>a_type = ''USERS/RESOURCE/RESET'',
         a_payload = JUndefined, a_meta = JUndefined\<rparr>)) = toUpperCase ''users''"
    by (simp add: toUpperCase_def upperChar_def)
  have n: "''users'' \<noteq> ([] :: string)" by simp
  show ?thesis
    using h C1_uppercased_name_matches [OF n h, of defaultOptions
        "initialResourceState\<lparr>results := [JNum 1]\<rparr>"]
    by (simp add: switchDomain_def segment_def)
qed

text \<open>
  C1 as stated fails: the segment \<^verbatim>\<open>users\<close> equals the configured name
  \<^verbatim>\<open>USERS\<close> up to letter case, but the action \<^verbatim>\<open>users/RESOURCE/RESET\<close> is not
  taken to target the slice: the state comes back as it was, where the domain switch
  would have reset it.
\<close>

theorem C1_lowercase_segment_counterexample:
  "toUpperCase ''users'' = toUpperCase ''USERS'' \<and>
   reduce ''USERS'' defaultOptions (initialResourceState\<lparr>results := [JNum 1]\<rparr>)
     \<lparr>a_type = ''users/RESOURCE/RESET'', a_payload = JUndefined, a_meta = JUndefined\<rparr>
     = Inr (initialResourceState\<lparr>results := [JNum 1]\<rparr>, []) \<and>
   switchDomain (Some ''RESOURCE'') (Some ''RESET'')
     \<lparr>a_type = ''users/RESOURCE/RESET'', a_payload = JUndefined, a_meta = JUndefined\<rparr>
     (initialResourceState\<lparr>results := [JNum 1]\<rparr>) defaultOptions
     = Inr (initialResourceState, []) \<and>
   results (initialResourceState\<lparr>results := [JNum 1]\<rparr>) \<noteq> results initialResourceState"
  by (simp add: reduce_def resourceReducer_def reducer_def segment_def switchDomain_def
      toUpperCase_def upperChar_def initialResourceState_def)

text \<open>
  C2 fails on the code. Removing a field from a form that has no buffer evaluates
  \<^verbatim>\<open>delete undefined[field]\<close>, which throws a TypeError: on the initial state the
  action \<^verbatim>\<open>USERS/CHANGESET/REMOVE\<close> with payload \<^verbatim>\<open>'name'\<close> returns no state.
\<close>

theorem C2_remove_without_buffer_throws:
  "reduce ''USERS'' defaultOptions initialResourceState
     \<lparr>a_type = ''USERS/CHANGESET/REMOVE'', a_payload = JStr ''name'', a_meta = JUndefined\<rparr>
     = Inl TypeError"
  by (simp add: reduce_def resourceReducer_def reducer_def segment_def switchDomain_def
      handleChangeset_def removeBody_def toUpperCase_def upperChar_def
      initialResourceState_def)

text \<open>
  C5. A SUCCESS action of an operation domain whose payload is falsy returns the state
  it was given: results, entities, meta, changeset and every status are the same, and
  nothing is written.
\<close>

theorem C5_falsy_success_is_noop:
  assumes "resourceName \<noteq> ([] :: string)"
    and "split CHR ''/'' (a_type action) = toUpperCase resourceName # d # ''SUCCESS'' # rest"
    and "d \<noteq> ''RESOURCE''" and "d \<noteq> ''META''" and "d \<noteq> ''CHANGESET''"
    and "\<not> truthy (a_payload action)"
  shows "reduce resourceName options state action = Inr (state, [])"
  using assms by (simp add: reduce_operation handleResource_def handleSuccess_def)

theorem C5_falsy_success_is_noop_witness:
  "''users'' \<noteq> ([] :: string) \<and>
   split CHR ''/'' (a_type \<lparr>a_type = ''USERS/DESTROY/SUCCESS'', a_payload = JNum 0,
       a_meta = JNull\<rparr>) = toUpperCase ''users'' # ''DESTROY'' # ''SUCCESS'' # [] \<and>
   \<not> truthy (a_payload \<lparr>a_type = ''USERS/DESTROY/SUCCESS'', a_payload = JNum 0,
       a_meta = JNull\<rparr>) \<and>
   reduce ''users'' defaultOptions (initialResourceState\<lparr>results := [JNum 1]\<rparr>)
     \<lparr>a_type = ''USERS/DESTROY/SUCCESS'', a_payload = JNum 0, a_meta = JNull\<rparr>
     = Inr (initialResourceState\<lparr>results := [JNum 1]\<rparr>, [])"
proof -
  have n: "''users'' \<noteq> ([] :: string)" by simp
  have s: "split CHR ''/'' (a_type \<lparr>a_type = ''USERS/DESTROY/SUCCESS'', a_payload = JNum 0,
       a_meta = JNull\<rparr>) = toUpperCase ''users'' # ''DESTROY'' # ''SUCCESS'' # []"
    by (simp add: toUpperCase_def upperChar_def)
  have p: "\<not> truthy (a_payload \<lparr>a_type = ''USERS/DESTROY/SUCCESS'', a_payload = JNum 0,
       a_meta = JNull\<rparr>)"
    by simp
  have d: "''DESTROY'' \<noteq> ''RESOURCE''" "''DESTROY'' \<noteq> ''META''" "''DESTROY'' \<noteq> ''CHANGESET''"
    by simp_all
  show ?thesis
    using s p C5_falsy_success_is_noop [OF n s d p, of defaultOptions
        "initialResourceState\<lparr>results := [JNum 1]\<rparr>"]
    by simp
qed



section \<open>The loop bodies\<close>

text \<open>\<^verbatim>\<open>indexOf\<close> finds primitive values only, by equality; what it finds,
  \<^verbatim>\<open>splice\<close> removes.\<close>

lemma strictEq_prim: "isPrimitive v \<Longrightarrow> strictEq x v = (x = v)"
  by (auto simp: strictEq_def)

lemma indexOf_ge: "- 1 \<le> indexOf rs v"
  by (induction rs) (auto simp: Let_def)

lemma indexOf_none_iff: "indexOf rs v = - 1 \<longleftrightarrow> \<not> list_ex (\<lambda>r. strictEq r v) rs"
proof (induction rs)
  case Nil
  show ?case by simp
next
  case (Cons x xs)
  have "- 1 \<le> indexOf xs v" by (rule indexOf_ge)
  then have "indexOf xs v + 1 \<noteq> - 1" by arith
  with Cons show ?case by (simp add: Let_def)
qed

lemma indexOf_not_prim: "\<not> isPrimitive v \<Longrightarrow> indexOf rs v = - 1"
  by (simp add: indexOf_none_iff list_ex_iff strictEq_def)

lemma indexOf_prim: "isPrimitive v \<Longrightarrow> indexOf rs v = - 1 \<longleftrightarrow> v \<notin> set rs"
  by (auto simp: indexOf_none_iff list_ex_iff strictEq_prim)

lemma splice1_indexOf:
  "isPrimitive v \<Longrightarrow> indexOf rs v \<noteq> - 1 \<Longrightarrow> splice1 rs (nat (indexOf rs v)) = remove1 v rs"
proof (induction rs)
  case Nil
  then show ?case by simp
next
  case (Cons x xs)
  show ?case
  proof (cases "x = v")
    case True
    with Cons.prems show ?thesis by (simp add: strictEq_prim splice1_def)
  next
    case False
    with Cons.prems have ne: "indexOf xs v \<noteq> - 1"
      by (simp add: strictEq_prim Let_def split: if_splits)
    have "- 1 \<le> indexOf xs v" by (rule indexOf_ge)
    with ne have ge: "0 \<le> indexOf xs v" by arith
    then have "nat (indexOf xs v + 1) = Suc (nat (indexOf xs v))" by arith
    with False Cons.prems Cons.IH [OF Cons.prems(1) ne] ne show ?thesis
      by (simp add: strictEq_prim Let_def splice1_def)
  qed
qed

text \<open>What the destroy loop leaves of \<^verbatim>\<open>results\<close>.\<close>

lemma destroy_results:
  "(if indexOf rs v > - 1 then splice1 rs (nat (indexOf rs v)) else rs) =
     (if isPrimitive v then remove1 v rs else rs)"
proof (cases "isPrimitive v")
  case False
  then show ?thesis by (simp add: indexOf_not_prim)
next
  case True
  show ?thesis
  proof (cases "indexOf rs v = - 1")
    case True
    with \<open>isPrimitive v\<close> have "v \<notin> set rs" by (simp add: indexOf_prim)
    with True \<open>isPrimitive v\<close> show ?thesis by (simp add: remove1_idem)
  next
    case False
    have "- 1 \<le> indexOf rs v" by (rule indexOf_ge)
    with False have "indexOf rs v > - 1" by arith
    with True False show ?thesis by (simp add: splice1_indexOf)
  qed
qed

lemma primitive_convertible: "isPrimitive v \<Longrightarrow> \<not> unconvertible v"
  by (cases v) simp_all

lemma destroyBody_eq:
  "destroyBody options obj (rs, ents, ws) =
     (case destroyId options obj of
        Inl e \<Rightarrow> Inl e
      | Inr i \<Rightarrow>
          if unconvertible i then Inl TypeError
          else Inr (if isPrimitive i then remove1 i rs else rs, ents(toKey i := None), ws))"
  by (simp add: destroyBody_def Let_def destroy_results split: sum.splits)

lemma updateBody_eq:
  "updateBody options obj (rs, ents, ws) =
     (case getProp obj (idAttribute options) of
        Inl e \<Rightarrow> Inl e
      | Inr i \<Rightarrow>
          if truthy i then
            (if unconvertible i then Inl TypeError
             else
               Inr (if list_ex (\<lambda>r. strictEq r i) rs then rs else rs @ [i],
                    ents(toKey i \<mapsto> onUpdate options
                       (case ents (toKey i) of None \<Rightarrow> JUndefined | Some e \<Rightarrow> e) obj),
                    ws))
          else Inr (rs, ents, ws @ [''Missing '' @ [CHR 0x27] @ idAttribute options @ [CHR 0x27] @
                       '' unable to add data to store'']))"
  by (simp add: updateBody_def indexOf_none_iff split: sum.splits)

section \<open>SUCCESS\<close>

text \<open>The state that \<^verbatim>\<open>handleSuccess\<close> builds before it merges the entities.\<close>

lemma reduce_success:
  assumes "resourceName \<noteq> ([] :: string)"
    and "split CHR ''/'' (a_type action) = toUpperCase resourceName # d # ''SUCCESS'' # rest"
    and "d \<noteq> ''RESOURCE''" and "d \<noteq> ''META''" and "d \<noteq> ''CHANGESET''"
    and "truthy (a_payload action)"
  shows "reduce resourceName options state action =
     (case forEach (if d = ''DESTROY'' then destroyBody options else updateBody options)
             (toArray (entityReducer options d (a_payload action) (a_meta action)))
             (results state, entities state, []) of
        Inl e \<Rightarrow> Inl e
      | Inr (rs, ents, ws) \<Rightarrow>
          Inr (\<lparr> results = rs, entities = ents,
                 meta = (if a_meta action = JNull \<or> a_meta action = JBool False then Map.empty
                         else assignAll (meta state) (ownProps (a_meta action))),
                 changeset = changeset state,
                 status = (status state)(toLowerCase d \<mapsto>
                        [(''pending'', JBool False), (''busy'', JBool False),
                         (''success'', JBool True), (''payload'', a_payload action)]) \<rparr>, ws))"
  using assms
  by (simp add: reduce_operation handleResource_def handleSuccess_def Let_def
      destroyInResource_def updateInResource_def split: sum.splits)

lemma assignAll_override: "assignAll m ps = m ++ map_of (rev ps)"
proof (induction ps arbitrary: m)
  case Nil
  show ?case by (simp add: assignAll_def)
next
  case (Cons p ps)
  obtain k v where p: "p = (k, v)" by (cases p)
  have "assignAll m (p # ps) = assignAll (m(k \<mapsto> v)) ps"
    by (simp add: assignAll_def p)
  also have "\<dots> = m(k \<mapsto> v) ++ map_of (rev ps)" by (rule Cons.IH)
  also have "\<dots> = m ++ map_of (rev (p # ps))"
    by (simp add: p map_add_upd_left fun_eq_iff map_add_def split: option.splits)
  finally show ?case .
qed

section \<open>Destroy without identifier\<close>





section \<open>Update\<close>

lemma getProp_defined:
  "obj \<noteq> JUndefined \<Longrightarrow> obj \<noteq> JNull \<Longrightarrow> \<exists>i. getProp obj k = Inr i"
  by (cases obj) simp_all

lemma plainId_convertible: "plainId v \<Longrightarrow> \<not> unconvertible v"
  by (simp add: plainId_def primitive_convertible)

lemma forEach_updateBody:
  assumes "\<forall>obj \<in> set xs. \<exists>i. getProp obj (idAttribute options) = Inr i \<and> (truthy i \<longrightarrow> plainId i)"
  shows "\<exists>ws'. forEach (updateBody options) xs (rs, ents, ws) =
           Inr (fst (fold (spec_mergeElement options) xs (rs, ents)),
                snd (fold (spec_mergeElement options) xs (rs, ents)), ws')"
  using assms
proof (induction xs arbitrary: rs ents ws)
  case Nil
  show ?case by simp
next
  case (Cons x xs)
  from Cons.prems obtain i where i: "getProp x (idAttribute options) = Inr i"
    and p: "truthy i \<longrightarrow> plainId i"
    by auto
  obtain rs' ents' where m: "spec_mergeElement options x (rs, ents) = (rs', ents')"
    by (cases "spec_mergeElement options x (rs, ents)")
  have "\<exists>ws1. updateBody options x (rs, ents, ws) = Inr (rs', ents', ws1)"
    using i p m
    by (auto simp: updateBody_eq spec_mergeElement_def plainId_convertible split: if_splits)
  then obtain ws1 where u: "updateBody options x (rs, ents, ws) = Inr (rs', ents', ws1)" ..
  from Cons.prems
  have "\<forall>obj \<in> set xs. \<exists>i. getProp obj (idAttribute options) = Inr i \<and> (truthy i \<longrightarrow> plainId i)"
    by simp
  from Cons.IH [OF this, of rs' ents' ws1] u m show ?case by simp
qed

text \<open>
  Where every element has an identifier that is falsy or plain, the update merges the
  elements one by one, in order, as the specification words it.
\<close>

lemma update_merges_elements:
  assumes "resourceName \<noteq> ([] :: string)"
    and "split CHR ''/'' (a_type action) = toUpperCase resourceName # d # ''SUCCESS'' # rest"
    and "d \<noteq> ''RESOURCE''" and "d \<noteq> ''META''" and "d \<noteq> ''CHANGESET''"
    and "d \<noteq> ''DESTROY''"
    and "truthy (a_payload action)"
    and "idAttribute options = ''id''"
    and "\<forall>obj \<in> set (toArray (entityReducer options d (a_payload action) (a_meta action))).
           \<exists>i. getProp obj (idAttribute options) = Inr i \<and> (truthy i \<longrightarrow> plainId i)"
  shows "\<exists>state' warnings.
           reduce resourceName options state action = Inr (state', warnings) \<and>
           (results state', entities state') =
             fold (spec_mergeElement options)
               (toArray (entityReducer options d (a_payload action) (a_meta action)))
               (results state, entities state)"
proof -
  from forEach_updateBody [OF assms(9), of "results state" "entities state" "[]"]
  obtain ws' where "forEach (updateBody options)
      (toArray (entityReducer options d (a_payload action) (a_meta action)))
      (results state, entities state, []) =
      Inr (fst (fold (spec_mergeElement options)
                 (toArray (entityReducer options d (a_payload action) (a_meta action)))
                 (results state, entities state)),
           snd (fold (spec_mergeElement options)
                 (toArray (entityReducer options d (a_payload action) (a_meta action)))
                 (results state, entities state)), ws')" ..
  then show ?thesis
    using assms(6) by (simp add: reduce_success [OF assms(1-5) assms(7)])
qed

text \<open>
  C4 fails on the code. An element that is \<^verbatim>\<open>null\<close> has no identifier to read:
  \<^verbatim>\<open>obj[options.idAttribute]\<close> throws a TypeError, where an element without usable
  identifier is to be skipped. For the payload \<^verbatim>\<open>[{id: 1}, null]\<close> the reducer
  returns no state, so that the first element is not merged either.
\<close>

theorem C4_null_element_throws:
  "reduce ''USERS'' defaultOptions initialResourceState
     \<lparr>a_type = ''USERS/FETCH/SUCCESS'', a_payload = JArr [JObj [(''id'', JNum 1)], JNull],
      a_meta = JUndefined\<rparr>
   = Inl TypeError"
  by (simp add: run_defs)

section \<open>The meta of a SUCCESS\<close>

text \<open>Whenever a SUCCESS action with a truthy payload returns a state, its
  \<^verbatim>\<open>meta\<close> is empty for an action \<^verbatim>\<open>meta\<close> of \<^verbatim>\<open>null\<close> or \<^verbatim>\<open>false\<close>, and
  otherwise the stored \<^verbatim>\<open>meta\<close> overridden by the fields of the action's.\<close>

lemma success_meta:
  assumes "resourceName \<noteq> ([] :: string)"
    and "split CHR ''/'' (a_type action) = toUpperCase resourceName # d # ''SUCCESS'' # rest"
    and "d \<noteq> ''RESOURCE''" and "d \<noteq> ''META''" and "d \<noteq> ''CHANGESET''"
    and "truthy (a_payload action)"
    and "reduce resourceName options state action = Inr (state', warnings)"
  shows "meta state' =
           (if a_meta action = JNull \<or> a_meta action = JBool False then Map.empty
            else meta state ++ map_of (rev (ownProps (a_meta action))))"
  using assms(7) unfolding reduce_success [OF assms(1-6)]
  by (auto simp: assignAll_override split: sum.splits)

text \<open>
  C8 fails on the code, by the defect that C4 meets: a SUCCESS action whose payload
  \<^verbatim>\<open>[null]\<close> is truthy and whose \<^verbatim>\<open>meta\<close> is \<^verbatim>\<open>null\<close> is to leave a slice
  with an empty \<^verbatim>\<open>meta\<close>; the stored \<^verbatim>\<open>meta\<close> is not emptied, for the reducer
  throws a TypeError on the element and returns no state.
\<close>

theorem C8_null_element_throws:
  "truthy (a_payload \<lparr>a_type = ''USERS/FETCH/SUCCESS'', a_payload = JArr [JNull],
      a_meta = JNull\<rparr>) \<and>
   reduce ''USERS'' defaultOptions
     (initialResourceState\<lparr>meta := [''page'' \<mapsto> JNum 1]\<rparr>)
     \<lparr>a_type = ''USERS/FETCH/SUCCESS'', a_payload = JArr [JNull], a_meta = JNull\<rparr>
   = Inl TypeError"
  by (simp add: run_defs)

section \<open>Destroy twice\<close>

lemma numberOrString_primitive: "numberOrString i \<Longrightarrow> isPrimitive i"
  by (cases i) simp_all







section \<open>What one call can do to results and entities\<close>

lemma forEach_invariant:
  assumes "forEach body xs s = Inr s'"
    and "\<forall>x \<in> set xs. \<forall>t t'. body x t = Inr t' \<longrightarrow> P t \<longrightarrow> P t'"
    and "P s"
  shows "P s'"
  using assms
proof (induction xs arbitrary: s)
  case Nil
  then show ?case by simp
next
  case (Cons x xs)
  from Cons.prems(1) obtain s1 where s1: "body x s = Inr s1" and r: "forEach body xs s1 = Inr s'"
    by (auto split: sum.splits)
  from Cons.prems(2,3) s1 have "P s1" by simp
  moreover from Cons.prems(2)
  have "\<forall>y \<in> set xs. \<forall>t t'. body y t = Inr t' \<longrightarrow> P t \<longrightarrow> P t'" by simp
  ultimately show ?case using Cons.IH [OF r] by blast
qed

lemma handleChangeset_frame:
  "handleChangeset domain method action state options = Inr (state', ws) \<Longrightarrow>
   results state' = results state \<and> entities state' = entities state"
  by (auto simp: handleChangeset_def Let_def split: sum.splits if_splits)

text \<open>An action that does not reach the entity merger leaves \<^verbatim>\<open>results\<close> and
  \<^verbatim>\<open>entities\<close> as they are, or resets the slice.\<close>

lemma reducer_effect_other:
  assumes "reducer name options (Some state) action = Inr (state', ws)"
    and "successElements name options action = None"
  shows "(results state' = results state \<and> entities state' = entities state) \<or>
         state' = initialResourceState"
  using assms
  by (auto simp: reducer_def Let_def switchDomain_def successElements_def
      handleResource_def handleStart_def handleFailure_def handleClear_def handleSuccess_def
      dest: handleChangeset_frame split: if_splits option.splits)

text \<open>An action that reaches it runs one of the two bodies over its elements.\<close>

lemma reducer_effect_success:
  assumes "reducer name options (Some state) action = Inr (state', ws)"
    and "successElements name options action = Some (d, elems)"
  shows "forEach (if d = ''DESTROY'' then destroyBody options else updateBody options) elems
           (results state, entities state, []) = Inr (results state', entities state', ws)"
proof -
  from assms(2) have
    n: "segment (split CHR ''/'' (a_type action)) 0 = Some name"
    and m: "segment (split CHR ''/'' (a_type action)) 2 = Some ''SUCCESS''"
    and t: "truthy (a_payload action)"
    and d: "segment (split CHR ''/'' (a_type action)) 1 = Some d"
    and nd: "d \<noteq> ''RESOURCE''" "d \<noteq> ''META''" "d \<noteq> ''CHANGESET''"
    and e: "elems = toArray (entityReducer options d (a_payload action) (a_meta action))"
    by (auto simp: successElements_def Let_def split: if_splits option.splits)
  from assms(1) show ?thesis
    using n m t d nd e
    by (auto simp: reducer_def Let_def switchDomain_def handleResource_def handleSuccess_def
        destroyInResource_def updateInResource_def split: sum.splits if_splits)
qed

section \<open>No number or string twice\<close>

lemma count_list_remove1_le: "count_list (remove1 i rs) v \<le> count_list rs v"
  by (induction rs) auto

lemma updateBody_holdsOnce:
  assumes "updateBody options x (rs, ents, ws) = Inr (rs', ents', ws')" and "holdsOnce rs"
  shows "holdsOnce rs'"
proof -
  from assms(1) obtain i where i: "getProp x (idAttribute options) = Inr i"
    by (auto simp: updateBody_eq split: sum.splits)
  show ?thesis
  proof (cases "truthy i \<and> \<not> list_ex (\<lambda>r. strictEq r i) rs")
    case False
    with assms i show ?thesis by (auto simp: updateBody_eq split: if_splits)
  next
    case True
    with assms(1) i have rs': "rs' = rs @ [i]" by (auto simp: updateBody_eq split: if_splits)
    have "count_list (rs @ [i]) v \<le> 1" if v: "isPrimitive v" for v
    proof (cases "i = v")
      case False
      with v assms(2) show ?thesis by (simp add: holdsOnce_def)
    next
      case eq: True
      with True v have "v \<notin> set rs" by (auto simp: list_ex_iff strictEq_prim)
      with eq show ?thesis by simp
    qed
    then show ?thesis by (simp add: rs' holdsOnce_def)
  qed
qed

lemma destroyBody_holdsOnce:
  assumes "destroyBody options x (rs, ents, ws) = Inr (rs', ents', ws')" and "holdsOnce rs"
  shows "holdsOnce rs'"
proof -
  have "count_list rs' v \<le> count_list rs v" for v
    using assms(1) by (auto simp: destroyBody_eq count_list_remove1_le split: sum.splits if_splits)
  with assms(2) show ?thesis
    unfolding holdsOnce_def using le_trans by blast
qed

lemma reduce_holdsOnce:
  assumes "resourceName \<noteq> ([] :: string)"
    and "reduce resourceName options state action = Inr (state', ws)"
    and "holdsOnce (results state)"
  shows "holdsOnce (results state')"
proof -
  from assms(1,2)
  have r: "reducer (toUpperCase resourceName) options (Some state) action = Inr (state', ws)"
    by (simp add: reduce_reducer)
  show ?thesis
  proof (cases "successElements (toUpperCase resourceName) options action")
    case None
    from reducer_effect_other [OF r None] assms(3) show ?thesis
      by (auto simp: holdsOnce_def initialResourceState_def)
  next
    case (Some p)
    obtain d elems where p: "p = (d, elems)" by (cases p)
    let ?P = "\<lambda>(t :: store). holdsOnce (fst t)"
    have "?P (results state', entities state', ws)"
    proof (rule forEach_invariant [OF reducer_effect_success [OF r Some [unfolded p]],
          where P = ?P])
      show "?P (results state, entities state, [])" using assms(3) by simp
    next
      show "\<forall>x \<in> set elems. \<forall>t t'.
              (if d = ''DESTROY'' then destroyBody options else updateBody options) x t = Inr t' \<longrightarrow>
              ?P t \<longrightarrow> ?P t'"
      proof (intro ballI allI impI)
        fix x and t t' :: store
        assume b: "(if d = ''DESTROY'' then destroyBody options else updateBody options) x t = Inr t'"
          and P: "?P t"
        obtain rs ents ws0 where t: "t = (rs, ents, ws0)" by (cases t)
        obtain rs' ents' ws1 where t': "t' = (rs', ents', ws1)" by (cases t')
        from b P t t' show "?P t'"
          using destroyBody_holdsOnce [of options x rs ents ws0 rs' ents' ws1]
            updateBody_holdsOnce [of options x rs ents ws0 rs' ents' ws1]
          by (auto split: if_splits)
      qed
    qed
    then show ?thesis by simp
  qed
qed

text \<open>In every state that the reducer builds from the initial state, whatever the
  actions, \<^verbatim>\<open>results\<close> hold no number and no string twice.\<close>

lemma reachable_holds_once:
  assumes "resourceName \<noteq> ([] :: string)"
    and "applyAll resourceName options initialResourceState as = Inr state"
    and "numberOrString i"
  shows "count_list (results state) i \<le> 1"
proof -
  have "holdsOnce (results s') "
    if "applyAll resourceName options s as = Inr s'" and "holdsOnce (results s)" for s s'
    using that
  proof (induction as arbitrary: s)
    case Nil
    then show ?case by simp
  next
    case (Cons a as)
    from Cons.prems(1) obtain s1 ws where s1: "reduce resourceName options s a = Inr (s1, ws)"
      and r: "applyAll resourceName options s1 as = Inr s'"
      by (auto split: sum.splits)
    from reduce_holdsOnce [OF assms(1) s1 Cons.prems(2)] Cons.IH [OF r] show ?case by simp
  qed
  moreover have "holdsOnce (results initialResourceState)"
    by (simp add: holdsOnce_def initialResourceState_def)
  ultimately have "holdsOnce (results state)" using assms(2) by blast
  with assms(3) show ?thesis by (simp add: holdsOnce_def numberOrString_primitive)
qed

section \<open>Numbers and strings as identifiers\<close>

text \<open>The decimal form of a number tells the number, begins with a digit or the sign,
  and so names no member of \<^verbatim>\<open>Object.prototype\<close>.\<close>

lemma digitChar_inj: "a < 10 \<Longrightarrow> b < 10 \<Longrightarrow> digitChar a = digitChar b \<Longrightarrow> a = b"
proof -
  assume a: "a < 10" and b: "b < 10" and e: "digitChar a = digitChar b"
  have d: "distinct ''0123456789''" by simp
  from a b e d show ?thesis
    unfolding digitChar_def by (simp add: nth_eq_iff_index_eq)
qed

lemma digitChar_digit: "a < 10 \<Longrightarrow> digitChar a \<in> set ''0123456789''"
  unfolding digitChar_def by (rule nth_mem) simp

lemma showNat_digits: "set (showNat n) \<subseteq> set ''0123456789''"
proof (induction n rule: showNat.induct)
  case (1 n)
  show ?case
  proof (cases "n < 10")
    case True
    then show ?thesis using digitChar_digit [of n] by (subst showNat.simps) simp
  next
    case False
    have "n mod 10 < 10" by simp
    with False 1 digitChar_digit [of "n mod 10"] show ?thesis
      by (subst showNat.simps) simp
  qed
qed

lemma showNat_not_Nil: "showNat n \<noteq> []"
  by (subst showNat.simps) simp

lemma showNat_small: "n < 10 \<Longrightarrow> showNat n = [digitChar n]"
  by (subst showNat.simps) simp

lemma showNat_large: "\<not> n < 10 \<Longrightarrow> showNat n = showNat (n div 10) @ [digitChar (n mod 10)]"
  by (subst showNat.simps) simp

lemma showNat_length: "\<not> n < 10 \<Longrightarrow> 2 \<le> length (showNat n)"
proof -
  assume l: "\<not> n < 10"
  have "0 < length (showNat (n div 10))" using showNat_not_Nil [of "n div 10"] by simp
  then have "Suc 0 \<le> length (showNat (n div 10))" by linarith
  then show ?thesis unfolding showNat_large [OF l] by simp
qed

lemma showNat_inj: "showNat n = showNat m \<Longrightarrow> n = m"
proof (induction n arbitrary: m rule: showNat.induct)
  case (1 n)
  note e = "1.prems"
  show ?case
  proof (cases "n < 10")
    case True
    show ?thesis
    proof (cases "m < 10")
      case m: True
      from e have "[digitChar n] = [digitChar m]"
        unfolding showNat_small [OF True] showNat_small [OF m] .
      then have "digitChar n = digitChar m" by (simp only: list.inject)
      with True m show ?thesis by (rule digitChar_inj)
    next
      case m: False
      have "length (showNat n) = 1" unfolding showNat_small [OF True] by simp
      moreover have "2 \<le> length (showNat m)" using m by (rule showNat_length)
      moreover have "length (showNat n) = length (showNat m)" using e by (rule arg_cong)
      ultimately have False by linarith
      then show ?thesis ..
    qed
  next
    case False
    show ?thesis
    proof (cases "m < 10")
      case m: True
      have "length (showNat m) = 1" unfolding showNat_small [OF m] by simp
      moreover have "2 \<le> length (showNat n)" using False by (rule showNat_length)
      moreover have "length (showNat n) = length (showNat m)" using e by (rule arg_cong)
      ultimately have False by linarith
      then show ?thesis ..
    next
      case m: False
      from e have "showNat (n div 10) @ [digitChar (n mod 10)] =
          showNat (m div 10) @ [digitChar (m mod 10)]"
        unfolding showNat_large [OF False] showNat_large [OF m] .
      then have q: "showNat (n div 10) = showNat (m div 10)"
        and d: "digitChar (n mod 10) = digitChar (m mod 10)"
        by (simp_all only: append1_eq_conv)
      from "1.IH" [OF False q] have dv: "n div 10 = m div 10" .
      have "n mod 10 < 10" "m mod 10 < 10" by simp_all
      then have md: "n mod 10 = m mod 10" using d by (rule digitChar_inj)
      have "n = n div 10 * 10 + n mod 10" by (rule div_mult_mod_eq [symmetric])
      also have "\<dots> = m div 10 * 10 + m mod 10" by (simp only: dv md)
      also have "\<dots> = m" by (rule div_mult_mod_eq)
      finally show ?thesis .
    qed
  qed
qed

lemma showNat_hd: "hd (showNat k) \<in> set ''0123456789''"
proof -
  have "hd (showNat k) \<in> set (showNat k)" using showNat_not_Nil by (rule hd_in_set)
  with showNat_digits [of k] show ?thesis by (rule rev_subsetD [rotated])
qed

lemma showInt_neg: "a < 0 \<Longrightarrow> showInt a = CHR ''-'' # showNat (nat (- a))"
  by (simp add: showInt_def)

lemma showInt_pos: "\<not> a < 0 \<Longrightarrow> showInt a = showNat (nat a)"
  by (simp add: showInt_def)

lemma showInt_mixed: "a < 0 \<Longrightarrow> \<not> b < 0 \<Longrightarrow> showInt a \<noteq> showInt b"
proof
  assume a: "a < 0" and b: "\<not> b < 0" and e: "showInt a = showInt b"
  have "hd (showInt a) = CHR ''-''" unfolding showInt_neg [OF a] by simp
  moreover have "hd (showInt b) \<in> set ''0123456789''"
    unfolding showInt_pos [OF b] by (rule showNat_hd)
  moreover have "hd (showInt a) = hd (showInt b)" using e by (rule arg_cong)
  ultimately have "CHR ''-'' \<in> set ''0123456789''" by (simp only:)
  then show False by simp
qed

lemma showInt_inj: "showInt a = showInt b \<Longrightarrow> a = b"
proof -
  assume e: "showInt a = showInt b"
  show ?thesis
  proof (cases "a < 0")
    case True
    show ?thesis
    proof (cases "b < 0")
      case b: True
      from e have "showNat (nat (- a)) = showNat (nat (- b))"
        unfolding showInt_neg [OF True] showInt_neg [OF b] by (simp only: list.inject)
      then have "nat (- a) = nat (- b)" by (rule showNat_inj)
      with True b show ?thesis by linarith
    next
      case b: False
      with True e show ?thesis using showInt_mixed [of a b] by blast
    qed
  next
    case False
    show ?thesis
    proof (cases "b < 0")
      case b: True
      with False e show ?thesis using showInt_mixed [of b a] by metis
    next
      case b: False
      from e have "showNat (nat a) = showNat (nat b)"
        unfolding showInt_pos [OF False] showInt_pos [OF b] .
      then have "nat a = nat b" by (rule showNat_inj)
      with False b show ?thesis by linarith
    qed
  qed
qed

lemma showInt_hd: "hd (showInt a) \<in> set ''-0123456789''"
proof (cases "a < 0")
  case True
  show ?thesis unfolding showInt_neg [OF True] by simp
next
  case False
  have "hd (showNat (nat a)) \<in> set ''0123456789''" by (rule showNat_hd)
  then show ?thesis unfolding showInt_pos [OF False] by simp
qed

lemma objectPrototypeKeys_hd: "k \<in> set objectPrototypeKeys \<Longrightarrow> hd k \<notin> set ''-0123456789''"
  unfolding objectPrototypeKeys_def by auto

text \<open>The numbers are plain identifiers with different keys, and so are the strings
  that name no member of \<^verbatim>\<open>Object.prototype\<close>.\<close>

lemma numbers_plain: "inj_on toKey (range JNum) \<and> (\<forall>v \<in> range JNum. plainId v)"
proof
  have "x = y" if "showInt (sint x) = showInt (sint y)" for x y :: "54 word"
    using showInt_inj [OF that] by (rule signed_word_eqI)
  then show "inj_on toKey (range JNum)"
    by (auto simp: inj_on_def)
  have "showInt a \<notin> set objectPrototypeKeys" for a
    using showInt_hd [of a] objectPrototypeKeys_hd [of "showInt a"] by blast
  then show "\<forall>v \<in> range JNum. plainId v" by (auto simp: plainId_def)
qed

lemma strings_plain:
  "inj_on toKey {JStr s | s. s \<notin> set objectPrototypeKeys} \<and>
   (\<forall>v \<in> {JStr s | s. s \<notin> set objectPrototypeKeys}. plainId v)"
  by (auto simp: inj_on_def plainId_def)

section \<open>The correspondence of results and entities\<close>

lemma plainId_primitive: "plainId v \<Longrightarrow> isPrimitive v"
  by (simp add: plainId_def)

lemma updateBody_corresponds:
  assumes "inj_on toKey K" and "\<forall>v \<in> K. plainId v"
    and "updateBody options x (rs, ents, ws) = Inr (rs', ents', ws')"
    and "case getProp x (idAttribute options) of Inl e \<Rightarrow> True | Inr i \<Rightarrow> \<not> truthy i \<or> i \<in> K"
    and "corresponds K rs ents"
  shows "corresponds K rs' ents'"
proof -
  from assms(3) obtain i where i: "getProp x (idAttribute options) = Inr i"
    by (auto simp: updateBody_eq split: sum.splits)
  show ?thesis
  proof (cases "truthy i")
    case False
    with assms(3,5) i show ?thesis by (simp add: updateBody_eq)
  next
    case True
    with assms(4) i have iK: "i \<in> K" by simp
    with assms(2) have p: "isPrimitive i" by (blast intro: plainId_primitive)
    then have ex: "list_ex (\<lambda>r. strictEq r i) rs \<longleftrightarrow> i \<in> set rs"
      by (auto simp: list_ex_iff strictEq_prim)
    from assms(3) i True ex p
    have rs': "rs' = (if i \<in> set rs then rs else rs @ [i])"
      and ents': "ents' = ents(toKey i \<mapsto> onUpdate options
                    (case ents (toKey i) of None \<Rightarrow> JUndefined | Some e \<Rightarrow> e) x)"
      by (simp_all add: updateBody_eq primitive_convertible)
    from assms(5) have c: "set rs \<subseteq> K" "distinct rs" "toKey ` set rs = dom ents"
      "list_all truthy rs"
      by (simp_all add: corresponds_def)
    show ?thesis
    proof (cases "i \<in> set rs")
      case True
      then have "toKey i \<in> dom ents" using c(3) by blast
      then have "dom ents' = dom ents" unfolding ents' by auto
      with True c rs' show ?thesis by (simp add: corresponds_def)
    next
      case False
      with c iK rs' ents' \<open>truthy i\<close> show ?thesis by (auto simp: corresponds_def)
    qed
  qed
qed

text \<open>The destroy body keeps the correspondence, and the identifier it removes is in
  neither container afterwards.\<close>

lemma destroyBody_corresponds:
  assumes "inj_on toKey K" and "\<forall>v \<in> K. plainId v"
    and "destroyBody options x (rs, ents, ws) = Inr (rs', ents', ws')"
    and "case destroyId options x of Inl e \<Rightarrow> True | Inr i \<Rightarrow> i \<in> K"
    and "corresponds K rs ents"
  shows "corresponds K rs' ents'"
    and "\<forall>i. destroyId options x = Inr i \<longrightarrow> i \<notin> set rs' \<and> ents' (toKey i) = None"
proof -
  from assms(3) obtain i where i: "destroyId options x = Inr i"
    by (auto simp: destroyBody_eq split: sum.splits)
  with assms(4) have iK: "i \<in> K" by simp
  with assms(2) have p: "isPrimitive i" by (blast intro: plainId_primitive)
  from assms(3) i p have rs': "rs' = remove1 i rs" and ents': "ents' = ents(toKey i := None)"
    by (simp_all add: destroyBody_eq primitive_convertible)
  from assms(5) have c: "set rs \<subseteq> K" "distinct rs" "toKey ` set rs = dom ents"
    "list_all truthy rs"
    by (simp_all add: corresponds_def)
  have s: "set rs' = set rs - {i}" using c(2) rs' by simp
  have "toKey ` (set rs - {i}) = toKey ` set rs - toKey ` {i}"
    using assms(1) c(1) iK by (intro inj_on_image_set_diff [where C = K]) auto
  then have "toKey ` set rs' = dom ents'" using s c(3) ents' by auto
  moreover have "distinct rs'" using c(2) rs' by simp
  moreover have "set rs' \<subseteq> K" using s c(1) by auto
  moreover have "list_all truthy rs'" using s c(4) by (simp add: list_all_iff)
  ultimately show "corresponds K rs' ents'" by (simp add: corresponds_def)
  show "\<forall>i. destroyId options x = Inr i \<longrightarrow> i \<notin> set rs' \<and> ents' (toKey i) = None"
    using i s ents' by simp
qed

text \<open>What the destroy loop has removed stays removed to the end of the loop.\<close>

lemma forEach_destroyBody_removes:
  assumes "inj_on toKey K" and "\<forall>v \<in> K. plainId v"
    and "forEach (destroyBody options) xs (rs, ents, ws) = Inr (rs', ents', ws')"
    and "\<forall>x \<in> set xs. case destroyId options x of Inl e \<Rightarrow> True | Inr i \<Rightarrow> i \<in> K"
    and "corresponds K rs ents"
  shows "corresponds K rs' ents' \<and> set rs' \<subseteq> set rs \<and> (\<forall>k. ents k = None \<longrightarrow> ents' k = None) \<and>
         (\<forall>x \<in> set xs. \<forall>i. destroyId options x = Inr i \<longrightarrow>
            i \<notin> set rs' \<and> ents' (toKey i) = None)"
  using assms(3-5)
proof (induction xs arbitrary: rs ents ws)
  case Nil
  then show ?case by simp
next
  case (Cons x xs)
  from Cons.prems(1) obtain rs1 ents1 ws1
    where s1: "destroyBody options x (rs, ents, ws) = Inr (rs1, ents1, ws1)"
      and r: "forEach (destroyBody options) xs (rs1, ents1, ws1) = Inr (rs', ents', ws')"
    by (auto split: sum.splits)
  from Cons.prems(2) have x: "case destroyId options x of Inl e \<Rightarrow> True | Inr i \<Rightarrow> i \<in> K"
    and xs: "\<forall>y \<in> set xs. case destroyId options y of Inl e \<Rightarrow> True | Inr i \<Rightarrow> i \<in> K"
    by simp_all
  note st = destroyBody_corresponds [OF assms(1,2) s1 x Cons.prems(3)]
  have sub1: "set rs1 \<subseteq> set rs" "\<forall>k. ents k = None \<longrightarrow> ents1 k = None"
    using s1 set_remove1_subset [of _ rs]
    by (auto simp: destroyBody_eq split: sum.splits if_splits)
  note ih = Cons.IH [OF r xs st(1)]
  from ih st(2) sub1 show ?case by auto
qed

lemma initial_corresponds: "corresponds K (results initialResourceState) (entities initialResourceState)"
  by (simp add: corresponds_def initialResourceState_def)

lemma reduce_corresponds:
  assumes "resourceName \<noteq> ([] :: string)"
    and "inj_on toKey K" and "\<forall>v \<in> K. plainId v"
    and "idsWithin K (toUpperCase resourceName) options action"
    and "reduce resourceName options state action = Inr (state', ws)"
    and "corresponds K (results state) (entities state)"
  shows "corresponds K (results state') (entities state')"
proof -
  from assms(1,5)
  have r: "reducer (toUpperCase resourceName) options (Some state) action = Inr (state', ws)"
    by (simp add: reduce_reducer)
  show ?thesis
  proof (cases "successElements (toUpperCase resourceName) options action")
    case None
    from reducer_effect_other [OF r None] assms(6) show ?thesis
      by (auto simp: initial_corresponds)
  next
    case (Some p)
    obtain d elems where p: "p = (d, elems)" by (cases p)
    let ?P = "\<lambda>(t :: store). corresponds K (fst t) (fst (snd t))"
    from assms(4) Some p have ids:
      "\<forall>obj \<in> set elems. if d = ''DESTROY''
          then (case destroyId options obj of Inl e \<Rightarrow> True | Inr i \<Rightarrow> i \<in> K)
          else (case getProp obj (idAttribute options) of Inl e \<Rightarrow> True | Inr i \<Rightarrow> \<not> truthy i \<or> i \<in> K)"
      by (simp add: idsWithin_def list_all_iff)
    have "?P (results state', entities state', ws)"
    proof (rule forEach_invariant [OF reducer_effect_success [OF r Some [unfolded p]],
          where P = ?P])
      show "?P (results state, entities state, [])" using assms(6) by simp
    next
      show "\<forall>x \<in> set elems. \<forall>t t'.
              (if d = ''DESTROY'' then destroyBody options else updateBody options) x t = Inr t' \<longrightarrow>
              ?P t \<longrightarrow> ?P t'"
      proof (intro ballI allI impI)
        fix x and t t' :: store
        assume x: "x \<in> set elems"
          and b: "(if d = ''DESTROY'' then destroyBody options else updateBody options) x t = Inr t'"
          and P: "?P t"
        obtain rs ents ws0 where t: "t = (rs, ents, ws0)" by (cases t)
        obtain rs' ents' ws1 where t': "t' = (rs', ents', ws1)" by (cases t')
        show "?P t'"
        proof (cases "d = ''DESTROY''")
          case True
          with ids x b P t t' show ?thesis
            using destroyBody_corresponds(1) [OF assms(2,3), of options x rs ents ws0 rs' ents' ws1]
            by simp
        next
          case False
          with ids x b P t t' show ?thesis
            using updateBody_corresponds [OF assms(2,3), of options x rs ents ws0 rs' ents' ws1]
            by simp
        qed
      qed
    qed
    then show ?thesis by simp
  qed
qed

lemma applyAll_corresponds:
  assumes "resourceName \<noteq> ([] :: string)"
    and "inj_on toKey K" and "\<forall>v \<in> K. plainId v"
    and "\<forall>a \<in> set as. idsWithin K (toUpperCase resourceName) options a"
    and "applyAll resourceName options state as = Inr state'"
    and "corresponds K (results state) (entities state)"
  shows "corresponds K (results state') (entities state')"
  using assms(4-6)
proof (induction as arbitrary: state)
  case Nil
  then show ?case by simp
next
  case (Cons a as)
  from Cons.prems(2) obtain s1 ws where s1: "reduce resourceName options state a = Inr (s1, ws)"
    and r: "applyAll resourceName options s1 as = Inr state'"
    by (auto split: sum.splits)
  from Cons.prems(1) have a: "idsWithin K (toUpperCase resourceName) options a" by simp
  have "corresponds K (results s1) (entities s1)"
    by (rule reduce_corresponds [OF assms(1-3) a s1 Cons.prems(3)])
  with Cons.IH [OF _ r] Cons.prems(1) show ?case by simp
qed

lemma destroy_removes:
  assumes "resourceName \<noteq> ([] :: string)"
    and "inj_on toKey K" and "\<forall>v \<in> K. plainId v"
    and "idsWithin K (toUpperCase resourceName) options action"
    and "successElements (toUpperCase resourceName) options action = Some (''DESTROY'', elems)"
    and "reduce resourceName options state action = Inr (state', ws)"
    and "corresponds K (results state) (entities state)"
  shows "\<forall>obj \<in> set elems. \<forall>i. destroyId options obj = Inr i \<longrightarrow>
           i \<notin> set (results state') \<and> entities state' (toKey i) = None"
proof -
  from assms(1,6)
  have r: "reducer (toUpperCase resourceName) options (Some state) action = Inr (state', ws)"
    by (simp add: reduce_reducer)
  from reducer_effect_success [OF r assms(5)]
  have f: "forEach (destroyBody options) elems (results state, entities state, []) =
             Inr (results state', entities state', ws)"
    by simp
  from assms(4,5)
  have ids: "\<forall>x \<in> set elems. case destroyId options x of Inl e \<Rightarrow> True | Inr i \<Rightarrow> i \<in> K"
    by (simp add: idsWithin_def list_all_iff)
  from forEach_destroyBody_removes [OF assms(2,3) f ids assms(7)] show ?thesis by blast
qed

text \<open>
  C3 (as amended). Take the default identifier field, and let \<open>K\<close> be a set of plain
  identifiers no two of which have the same property key (numbers only, for instance, or
  strings that name no member of \<^verbatim>\<open>Object.prototype\<close>), and let every action of a
  sequence carry identifiers within \<open>K\<close>. Then in the state reached from the initial
  state the property keys of the identifiers in \<^verbatim>\<open>results\<close> are exactly the keys of
  \<^verbatim>\<open>entities\<close>, no identifier occurs twice in \<^verbatim>\<open>results\<close>, distinct
  identifiers have distinct keys, and no identifier is falsy. And a DESTROY SUCCESS with
  identifiers within \<open>K\<close>, applied to that state, leaves none of its identifiers in
  \<^verbatim>\<open>results\<close> and none of their keys in \<^verbatim>\<open>entities\<close>.
\<close>

theorem C3_results_entities_correspond:
  assumes "resourceName \<noteq> ([] :: string)"
    and "idAttribute options = ''id''"
    and "inj_on toKey K" and "\<forall>v \<in> K. plainId v"
    and "\<forall>a \<in> set as. idsWithin K (toUpperCase resourceName) options a"
    and "applyAll resourceName options initialResourceState as = Inr state"
  shows "toKey ` set (results state) = dom (entities state) \<and> distinct (results state) \<and>
         inj_on toKey (set (results state)) \<and> list_all truthy (results state) \<and>
         (\<forall>a elems state' warnings.
            idsWithin K (toUpperCase resourceName) options a \<longrightarrow>
            successElements (toUpperCase resourceName) options a = Some (''DESTROY'', elems) \<longrightarrow>
            reduce resourceName options state a = Inr (state', warnings) \<longrightarrow>
            (\<forall>obj \<in> set elems. \<forall>i. destroyId options obj = Inr i \<longrightarrow>
               i \<notin> set (results state') \<and> entities state' (toKey i) = None))"
proof -
  have c: "corresponds K (results state) (entities state)"
    by (rule applyAll_corresponds [OF assms(1,3-6) initial_corresponds])
  with assms(3) have "toKey ` set (results state) = dom (entities state) \<and>
      distinct (results state) \<and> inj_on toKey (set (results state)) \<and>
      list_all truthy (results state)"
    by (auto simp: corresponds_def intro: inj_on_subset)
  moreover have "\<forall>a elems state' warnings.
            idsWithin K (toUpperCase resourceName) options a \<longrightarrow>
            successElements (toUpperCase resourceName) options a = Some (''DESTROY'', elems) \<longrightarrow>
            reduce resourceName options state a = Inr (state', warnings) \<longrightarrow>
            (\<forall>obj \<in> set elems. \<forall>i. destroyId options obj = Inr i \<longrightarrow>
               i \<notin> set (results state') \<and> entities state' (toKey i) = None)"
    using destroy_removes [OF assms(1,3,4) _ _ _ c] by blast
  ultimately show ?thesis by blast
qed

theorem C3_results_entities_correspond_witness:
  "\<exists>state state'.
     applyAll ''users'' defaultOptions initialResourceState
       [\<lparr>a_type = ''USERS/FETCH/SUCCESS'',
         a_payload = JArr [JObj [(''id'', JNum 1)], JObj [(''id'', JNum 2)], JObj []],
         a_meta = JUndefined\<rparr>] = Inr state \<and>
     results state = [JNum 1, JNum 2] \<and>
     toKey ` set (results state) = dom (entities state) \<and> distinct (results state) \<and>
     reduce ''users'' defaultOptions state
       \<lparr>a_type = ''USERS/DESTROY/SUCCESS'', a_payload = JNum 1, a_meta = JUndefined\<rparr>
       = Inr (state', []) \<and>
     JNum 1 \<notin> set (results state') \<and> entities state' (toKey (JNum 1)) = None"
proof -
  let ?as = "[\<lparr>a_type = ''USERS/FETCH/SUCCESS'',
         a_payload = JArr [JObj [(''id'', JNum 1)], JObj [(''id'', JNum 2)], JObj []],
         a_meta = JUndefined\<rparr>]"
  let ?a = "\<lparr>a_type = ''USERS/DESTROY/SUCCESS'', a_payload = JNum 1, a_meta = JUndefined\<rparr>"
  let ?R = "applyAll ''users'' defaultOptions initialResourceState ?as"
  let ?D = "reduce ''users'' defaultOptions (projr ?R) ?a"
  let ?K = "{JNum 1, JNum 2}"
  have n: "''users'' \<noteq> ([] :: string)" by simp
  have d: "idAttribute defaultOptions = ''id''" by (simp add: defaultOptions_def)
  have i: "inj_on toKey ?K" by (simp add: run_defs)
  have p: "\<forall>v \<in> ?K. plainId v" by (simp add: plainId_def objectPrototypeKeys_def run_defs)
  have w: "\<forall>a \<in> set ?as. idsWithin ?K (toUpperCase ''users'') defaultOptions a"
    by (simp add: idsWithin_def successElements_def run_defs)
  have r: "?R = Inr (projr ?R)" by (simp add: run_defs)
  have res: "results (projr ?R) = [JNum 1, JNum 2]" by (simp add: run_defs)
  have wa: "idsWithin ?K (toUpperCase ''users'') defaultOptions ?a"
    by (simp add: idsWithin_def successElements_def run_defs)
  have sa: "successElements (toUpperCase ''users'') defaultOptions ?a = Some (''DESTROY'', [JNum 1])"
    by (simp add: successElements_def run_defs)
  have ra: "?D = Inr (fst (projr ?D), [])" by (simp add: run_defs)
  have di: "destroyId defaultOptions (JNum 1) = Inr (JNum 1)" by (simp add: destroyId_def)
  note c3 = C3_results_entities_correspond [OF n d i p w r]
  from c3 wa sa ra di
  have "JNum 1 \<notin> set (results (fst (projr ?D))) \<and>
        entities (fst (projr ?D)) (toKey (JNum 1)) = None"
    by (metis list.set_intros(1))
  with c3 res r ra show ?thesis by blast
qed

text \<open>
  C3 as stated fails when an identifier arrives once as a number and once as a string.
  After \<^verbatim>\<open>USERS/FETCH/SUCCESS\<close> with \<^verbatim>\<open>[{id: 1}]\<close> and
  \<^verbatim>\<open>USERS/DESTROY/SUCCESS\<close> with \<^verbatim>\<open>'1'\<close>, the string is not found in
  \<^verbatim>\<open>results\<close>, which keeps the number 1, while \<^verbatim>\<open>delete entities['1']\<close> removes
  the entity: \<^verbatim>\<open>results\<close> holds an identifier without entity.
\<close>

theorem C3_mixed_identifier_counterexample:
  "\<not> isl (applyAll ''USERS'' defaultOptions initialResourceState
      [\<lparr>a_type = ''USERS/FETCH/SUCCESS'', a_payload = JArr [JObj [(''id'', JNum 1)]],
        a_meta = JUndefined\<rparr>,
       \<lparr>a_type = ''USERS/DESTROY/SUCCESS'', a_payload = JStr ''1'', a_meta = JUndefined\<rparr>]) \<and>
   results (projr (applyAll ''USERS'' defaultOptions initialResourceState
      [\<lparr>a_type = ''USERS/FETCH/SUCCESS'', a_payload = JArr [JObj [(''id'', JNum 1)]],
        a_meta = JUndefined\<rparr>,
       \<lparr>a_type = ''USERS/DESTROY/SUCCESS'', a_payload = JStr ''1'', a_meta = JUndefined\<rparr>]))
     = [JNum 1] \<and>
   entities (projr (applyAll ''USERS'' defaultOptions initialResourceState
      [\<lparr>a_type = ''USERS/FETCH/SUCCESS'', a_payload = JArr [JObj [(''id'', JNum 1)]],
        a_meta = JUndefined\<rparr>,
       \<lparr>a_type = ''USERS/DESTROY/SUCCESS'', a_payload = JStr ''1'', a_meta = JUndefined\<rparr>]))
     = Map.empty"
  by (simp add: run_defs)

end
